theory Spec2Isabelle
  imports Main "HOL-Library.Sublist" "HOL-Library.AList"
begin

section \<open>Strings of the source language\<close>

text \<open>
  A Python \<open>str\<close> is modelled as a \<open>string\<close>; a \<open>char\<close> stands for the code point
  of the same number (0 to 255).  \<open>str.strip()\<close> and the regular expression classes
  \<open>\s\<close> and \<open>\S\<close> use one and the same notion of white space; below code point
  256 it is the set listed in \<open>isspace\<close>.
\<close>

definition isspace :: "char \<Rightarrow> bool" where
  "isspace c \<longleftrightarrow>
     c \<in> set [CHR 0x09, CHR 0x0A, CHR 0x0B, CHR 0x0C, CHR 0x0D,
              CHR 0x1C, CHR 0x1D, CHR 0x1E, CHR 0x1F, CHR '' '',
              CHR 0x85, CHR 0xA0]"

definition lstrip :: "string \<Rightarrow> string" where
  "lstrip s = dropWhile isspace s"

definition rstrip :: "string \<Rightarrow> string" where
  "rstrip s = rev (dropWhile isspace (rev s))"

definition strip :: "string \<Rightarrow> string" where
  "strip s = rstrip (lstrip s)"

text \<open>\<open>s.split(sep)\<close> for a one-character separator: never empty, one more part than
  there are separators.\<close>

fun split_on :: "char \<Rightarrow> string \<Rightarrow> string list" where
  "split_on sep [] = [] # []"
| "split_on sep (c # cs) =
     (if c = sep then [] # split_on sep cs
      else (case split_on sep cs of [] \<Rightarrow> [c] # [] | p # ps \<Rightarrow> (c # p) # ps))"

text \<open>\<open>sep.join(parts)\<close>.\<close>

fun join :: "char \<Rightarrow> string list \<Rightarrow> string" where
  "join sep [] = []"
| "join sep [p] = p"
| "join sep (p # q # ps) = p @ sep # join sep (q # ps)"

text \<open>
  \<open>re.search(r'due:(\S+)', s)\<close>: the leftmost position at which the text \<open>due:\<close> is
  followed by at least one non-space character.  The result is the start of the match
  and group 1, the longest run of non-space characters after the colon.
\<close>

definition due_token :: "string \<Rightarrow> string" where
  "due_token s = takeWhile (\<lambda>c. \<not> isspace c) (drop 4 s)"

definition due_at :: "string \<Rightarrow> bool" where
  "due_at s \<longleftrightarrow> take 4 s = ''due:'' \<and> due_token s \<noteq> []"

fun re_search_due :: "string \<Rightarrow> (nat \<times> string) option" where
  "re_search_due [] = None"
| "re_search_due (c # cs) =
     (if due_at (c # cs) then Some (0, due_token (c # cs))
      else map_option (\<lambda>(i, g). (Suc i, g)) (re_search_due cs))"

section \<open>The task record and its codec\<close>

record task =
  title :: string
  due_date :: "string option"
  priority :: string
  category :: string
  completed :: bool
  created_at :: string

text \<open>\<open>Task.to_string\<close>.  The test \<open>if self.due_date\<close> is Python truthiness: it fails
  for \<open>None\<close> and for the empty string alike.\<close>

definition completed_mark :: "task \<Rightarrow> string" where
  "completed_mark t = (if completed t then ''+'' else ''-'')"

definition due_str :: "task \<Rightarrow> string" where
  "due_str t =
     (case due_date t of
        None \<Rightarrow> []
      | Some d \<Rightarrow> if d \<noteq> [] then '' due:'' @ d else [])"

definition to_string :: "task \<Rightarrow> string" where
  "to_string t =
     completed_mark t @ ''|'' @ created_at t @ ''|'' @ priority t @ ''|'' @
     category t @ ''|'' @ title t @ due_str t"

text \<open>
  \<open>Task.from_string\<close>.  The starred assignment needs at least four parts and raises
  \<open>ValueError\<close> otherwise; the \<open>except\<close> clause prints the line and the cause and
  returns \<open>None\<close>.  That outcome is \<open>Inl\<close> of the diagnostic printed.
\<close>

datatype cause = NotEnoughValues nat

datatype diagnostic = ReadFailure string cause

fun unpack4 :: "string list \<Rightarrow> (string \<times> string \<times> string \<times> string \<times> string list) option" where
  "unpack4 (a # b # c # d # rest) = Some (a, b, c, d, rest)"
| "unpack4 _ = None"

definition extract_due :: "string \<Rightarrow> string \<times> string option" where
  "extract_due title_full =
     (case re_search_due title_full of
        Some (start, g) \<Rightarrow> (strip (take start title_full), Some g)
      | None \<Rightarrow> (strip title_full, None))"

definition from_string :: "string \<Rightarrow> diagnostic + task" where
  "from_string line =
     (let parts = split_on CHR ''|'' (strip line) in
      case unpack4 parts of
        None \<Rightarrow> Inl (ReadFailure line (NotEnoughValues (length parts)))
      | Some (mark, created, prio, cat, title_parts) \<Rightarrow>
          (let title_full = join CHR ''|'' title_parts;
               (ttl, due) = extract_due title_full
           in Inr \<lparr>title = ttl, due_date = due, priority = prio, category = cat,
                   completed = (mark = ''+''), created_at = created\<rparr>))"


text \<open>Records on which encoding followed by decoding loses nothing.\<close>

definition no_bar :: "string \<Rightarrow> bool" where
  "no_bar s \<longleftrightarrow> CHR ''|'' \<notin> set s"

definition plain_title :: "string \<Rightarrow> bool" where
  "plain_title s \<longleftrightarrow> strip s = s \<and> re_search_due s = None"

definition plain_due :: "string \<Rightarrow> bool" where
  "plain_due d \<longleftrightarrow> d \<noteq> [] \<and> list_all (\<lambda>c. \<not> isspace c) d"

definition plain_fields :: "task \<Rightarrow> bool" where
  "plain_fields t \<longleftrightarrow>
     no_bar (created_at t) \<and> no_bar (priority t) \<and> no_bar (category t) \<and>
     plain_title (title t)"

definition round_trip_safe :: "task \<Rightarrow> bool" where
  "round_trip_safe t \<longleftrightarrow>
     plain_fields t \<and> (case due_date t of None \<Rightarrow> True | Some d \<Rightarrow> plain_due d)"

definition title_safe :: "task \<Rightarrow> bool" where
  "title_safe t \<longleftrightarrow>
     plain_fields t \<and>
     (case due_date t of None \<Rightarrow> True | Some d \<Rightarrow> d = [] \<or> \<not> isspace (hd d))"

definition record_head :: "task \<Rightarrow> string" where
  "record_head t =
     completed_mark t @ ''|'' @ created_at t @ ''|'' @ priority t @ ''|'' @ category t"


section \<open>The task store\<close>

text \<open>
  \<open>QuickDo\<close>: the tasks in memory and the contents of the tasks file.
  \<open>load_tasks\<close> takes the lines that iterating over the open file yields; a line is
  decoded only when it is not blank, and kept when decoding returned a task.
  The second component is what \<open>from_string\<close> printed on the way.
\<close>

record quickdo =
  tasks :: "task list"
  tasks_file :: string

definition load_line :: "task list \<times> diagnostic list \<Rightarrow> string \<Rightarrow> task list \<times> diagnostic list" where
  "load_line acc line =
     (if strip line \<noteq> [] then
        (case from_string line of
           Inr task \<Rightarrow> (fst acc @ [task], snd acc)
         | Inl d \<Rightarrow> (fst acc, snd acc @ [d]))
      else acc)"

definition load_tasks :: "string list \<Rightarrow> task list \<times> diagnostic list" where
  "load_tasks file_lines = foldl load_line ([], []) file_lines"

definition field_count :: "string \<Rightarrow> nat" where
  "field_count line = length (split_on CHR ''|'' (strip line))"

text \<open>\<open>save_tasks\<close> opens the file for writing and writes every task, one per line.\<close>

definition save_tasks :: "quickdo \<Rightarrow> quickdo" where
  "save_tasks q = q\<lparr>tasks_file := concat (map (\<lambda>t. to_string t @ [CHR 0x0A]) (tasks q))\<rparr>"

text \<open>
  \<open>list_tasks\<close> prints one line per task shown.  A printed line is kept in parts: the
  number, the status (a check mark when completed), the priority symbol, the title,
  the bracketed category and the bracketed due date.
\<close>

datatype priority_symbol = HighSymbol | MediumSymbol | LowSymbol

datatype output_line =
    NoActiveTasks
  | CurrentTasks
  | TaskLine nat bool priority_symbol string string string

definition priority_symbols_get :: "string \<Rightarrow> priority_symbol" where
  "priority_symbols_get p =
     (if p = ''high'' then HighSymbol
      else if p = ''medium'' then MediumSymbol
      else if p = ''low'' then LowSymbol
      else MediumSymbol)"

definition task_line :: "nat \<Rightarrow> task \<Rightarrow> output_line" where
  "task_line i t =
     TaskLine i (completed t) (priority_symbols_get (priority t)) (title t)
       (''['' @ category t @ '']'')
       (case due_date t of
          None \<Rightarrow> []
        | Some d \<Rightarrow> if d \<noteq> [] then '' ['' @ d @ '']'' else [])"

fun list_from :: "nat \<Rightarrow> bool \<Rightarrow> task list \<Rightarrow> output_line list" where
  "list_from i show_completed [] = []"
| "list_from i show_completed (t # ts) =
     (if completed t \<and> \<not> show_completed then list_from (Suc i) show_completed ts
      else task_line i t # list_from (Suc i) show_completed ts)"

definition list_tasks :: "quickdo \<Rightarrow> bool \<Rightarrow> output_line list" where
  "list_tasks q show_completed =
     (if tasks q = [] then [NoActiveTasks]
      else CurrentTasks # list_from 1 show_completed (tasks q))"

text \<open>\<open>complete_task\<close>: the new state and the message printed.\<close>

datatype message = MarkedCompleted string | InvalidTaskNumber

definition complete_task :: "quickdo \<Rightarrow> int \<Rightarrow> quickdo \<times> message" where
  "complete_task q task_id =
     (if 1 \<le> task_id \<and> task_id \<le> int (length (tasks q)) then
        (let i = nat (task_id - 1);
             task = tasks q ! i
         in (save_tasks (q\<lparr>tasks := (tasks q)[i := task\<lparr>completed := True\<rparr>]\<rparr>),
             MarkedCompleted (title task)))
      else (q, InvalidTaskNumber))"

section \<open>Reminders\<close>

datatype py_error = IndexError | ValueError

text \<open>
  \<open>int(s)\<close> on text: surrounding white space is dropped, a sign may come first, then
  decimal digits, single underscores allowed between two digits.  The white space that
  \<open>int\<close> drops is narrower than that of \<open>str.strip()\<close>: the separators 28 to 31 are
  not part of it.  (The limit on the number of digits that newer interpreters have,
  4300 unless configured otherwise, is not modelled.)
\<close>

definition int_isspace :: "char \<Rightarrow> bool" where
  "int_isspace c \<longleftrightarrow>
     c \<in> set [CHR 0x09, CHR 0x0A, CHR 0x0B, CHR 0x0C, CHR 0x0D, CHR '' '',
              CHR 0x85, CHR 0xA0]"

definition int_strip :: "string \<Rightarrow> string" where
  "int_strip s = rev (dropWhile int_isspace (rev (dropWhile int_isspace s)))"

definition isdigit :: "char \<Rightarrow> bool" where
  "isdigit c \<longleftrightarrow> 48 \<le> (of_char c :: nat) \<and> (of_char c :: nat) \<le> 57"

definition digit_value :: "char \<Rightarrow> nat" where
  "digit_value c = of_char c - 48"

fun digits_value :: "nat \<Rightarrow> string \<Rightarrow> nat option" where
  "digits_value acc [] = Some acc"
| "digits_value acc (c # cs) =
     (if isdigit c then digits_value (10 * acc + digit_value c) cs
      else if c = CHR ''_'' \<and> cs \<noteq> [] \<and> isdigit (hd cs) then digits_value acc cs
      else None)"

definition unsigned_value :: "string \<Rightarrow> nat option" where
  "unsigned_value s = (if s \<noteq> [] \<and> isdigit (hd s) then digits_value 0 s else None)"

definition py_int :: "string \<Rightarrow> int option" where
  "py_int s =
     (case int_strip s of
        [] \<Rightarrow> None
      | c # cs \<Rightarrow>
          if c = CHR ''-'' then map_option (\<lambda>n. - int n) (unsigned_value cs)
          else if c = CHR ''+'' then map_option int (unsigned_value cs)
          else map_option int (unsigned_value (c # cs)))"

text \<open>\<open>str.lower()\<close> on one character (code points below 256): the capital letters
  are A to Z and 192 to 222 without 215, and the small letter is 32 further on, which
  for these code points is the same as setting the bit of value 32.\<close>

definition lower :: "char \<Rightarrow> char" where
  "lower c =
     (let n = (of_char c :: nat)
      in if (65 \<le> n \<and> n \<le> 90) \<or> (192 \<le> n \<and> n \<le> 222 \<and> n \<noteq> 215)
         then (case c of Char b0 b1 b2 b3 b4 b5 b6 b7 \<Rightarrow> Char b0 b1 b2 b3 b4 True b6 b7)
         else c)"

definition units_get :: "char \<Rightarrow> int" where
  "units_get unit =
     (if unit = CHR ''m'' then 60
      else if unit = CHR ''h'' then 3600
      else if unit = CHR ''d'' then 86400
      else 60)"

text \<open>\<open>parse_delay\<close> inside \<open>QuickDo.remind\<close>: the number of seconds.\<close>

definition parse_delay :: "string \<Rightarrow> py_error + int" where
  "parse_delay delay_str =
     (if delay_str = [] then Inl IndexError
      else
        (let unit = lower (last delay_str)
         in case py_int (butlast delay_str) of
              None \<Rightarrow> Inl ValueError
            | Some v \<Rightarrow> Inr (v * units_get unit)))"

section \<open>The report\<close>

text \<open>
  A \<open>datetime\<close> is a number of microseconds on the time line; \<open>timedelta(days=n)\<close> is
  \<open>n\<close> times 86400 seconds.  \<open>datetime.strptime(\<cdot>, "%Y-%m-%d %H:%M")\<close> belongs to the
  standard library, not to this program: it is a parameter, \<open>None\<close> where it raises
  \<open>ValueError\<close>.  The clock reading \<open>now\<close> is a parameter too.  (The library's range of
  years, 1 to 9999, is out of reach of a clock reading less seven days.)
\<close>

type_synonym datetime = int

definition timedelta_days :: "int \<Rightarrow> int" where
  "timedelta_days n = n * 86400 * 1000000"

definition timedelta_hours :: "int \<Rightarrow> int" where
  "timedelta_hours n = n * 3600 * 1000000"

datatype report_output =
    UnsupportedPeriod
  | Summary string nat nat "(string \<times> nat) list"

definition window_start :: "datetime \<Rightarrow> string \<Rightarrow> datetime option" where
  "window_start now period =
     (if period = ''week'' then Some (now - timedelta_days 7)
      else if period = ''day'' then Some (now - timedelta_days 1)
      else None)"

text \<open>\<open>categories[k] = categories.get(k, 0) + 1\<close> on a dictionary that keeps the order
  of first insertion.\<close>

definition bump :: "(string \<times> nat) list \<Rightarrow> string \<Rightarrow> (string \<times> nat) list" where
  "bump categories k =
     AList.update k ((case map_of categories k of None \<Rightarrow> 0 | Some n \<Rightarrow> n) + 1) categories"

fun tally ::
  "(string \<Rightarrow> datetime option) \<Rightarrow> datetime \<Rightarrow> task list \<Rightarrow>
     nat \<times> nat \<times> (string \<times> nat) list \<Rightarrow> py_error + (nat \<times> nat \<times> (string \<times> nat) list)" where
  "tally strptime start_date [] acc = Inr acc"
| "tally strptime start_date (t # ts) (completed_n, remaining_n, categories) =
     (case strptime (created_at t) of
        None \<Rightarrow> Inl ValueError
      | Some task_date \<Rightarrow>
          if task_date \<ge> start_date then
            tally strptime start_date ts
              (if completed t
               then (completed_n + 1, remaining_n, bump categories (category t))
               else (completed_n, remaining_n + 1, bump categories (category t)))
          else tally strptime start_date ts (completed_n, remaining_n, categories))"

definition report ::
  "(string \<Rightarrow> datetime option) \<Rightarrow> datetime \<Rightarrow> quickdo \<Rightarrow> string \<Rightarrow> py_error + report_output" where
  "report strptime now q period =
     (case window_start now period of
        None \<Rightarrow> Inr UnsupportedPeriod
      | Some start_date \<Rightarrow>
          (case tally strptime start_date (tasks q) (0, 0, []) of
             Inl e \<Rightarrow> Inl e
           | Inr (completed_n, remaining_n, categories) \<Rightarrow>
               Inr (Summary period completed_n remaining_n categories)))"

text \<open>The records a report counts: those whose creation time parses and is not before
  the start of the window.\<close>

definition in_window :: "(string \<Rightarrow> datetime option) \<Rightarrow> datetime \<Rightarrow> task \<Rightarrow> bool" where
  "in_window strptime start_date t =
     (case strptime (created_at t) of None \<Rightarrow> False | Some d \<Rightarrow> d \<ge> start_date)"

text \<open>What loading keeps and what it prints, line by line.\<close>

definition kept :: "string list \<Rightarrow> task list" where
  "kept ls = map (\<lambda>l. projr (from_string l)) (filter (\<lambda>l. 4 \<le> field_count l) ls)"

definition printed :: "string list \<Rightarrow> diagnostic list" where
  "printed ls =
     map (\<lambda>l. ReadFailure l (NotEnoughValues (field_count l)))
       (filter (\<lambda>l. strip l \<noteq> [] \<and> field_count l < 4) ls)"

text \<open>
  An instance of the parser for the examples: the time stamps of the exact shape that
  \<open>strftime("%Y-%m-%d %H:%M")\<close> writes, four digits, two, two, a space, two and two,
  checked as a date of the calendar and counted in microseconds from the first day of
  the year 1, as the library's ordinal does.  (The library accepts some looser
  spellings as well; none is used below.)
\<close>

definition is_leap :: "nat \<Rightarrow> bool" where
  "is_leap y \<longleftrightarrow> y mod 4 = 0 \<and> (y mod 100 \<noteq> 0 \<or> y mod 400 = 0)"

definition days_in_month :: "nat \<Rightarrow> nat \<Rightarrow> nat" where
  "days_in_month y m =
     (if m = 2 \<and> is_leap y then 29
      else [31, 28, 31, 30, 31, 30, 31, 31, 30, 31, 30, 31] ! (m - 1))"

definition days_before_year :: "nat \<Rightarrow> nat" where
  "days_before_year y = (y - 1) * 365 + (y - 1) div 4 - (y - 1) div 100 + (y - 1) div 400"

definition days_before_month :: "nat \<Rightarrow> nat \<Rightarrow> nat" where
  "days_before_month y m =
     [0, 31, 59, 90, 120, 151, 181, 212, 243, 273, 304, 334] ! (m - 1) +
     (if m > 2 \<and> is_leap y then 1 else 0)"

definition datetime_of :: "nat \<Rightarrow> nat \<Rightarrow> nat \<Rightarrow> nat \<Rightarrow> nat \<Rightarrow> datetime" where
  "datetime_of y m d H M =
     int ((((days_before_year y + days_before_month y m + d - 1) * 24 + H) * 60 + M) * 60) * 1000000"

definition two_digits :: "char \<Rightarrow> char \<Rightarrow> nat" where
  "two_digits a b = 10 * digit_value a + digit_value b"

definition checked_datetime :: "nat \<Rightarrow> nat \<Rightarrow> nat \<Rightarrow> nat \<Rightarrow> nat \<Rightarrow> datetime option" where
  "checked_datetime y m d H M =
     (if 1 \<le> y \<and> 1 \<le> m \<and> m \<le> 12 \<and> 1 \<le> d \<and> d \<le> days_in_month y m \<and> H \<le> 23 \<and> M \<le> 59
      then Some (datetime_of y m d H M) else None)"

fun strptime_canonical :: "string \<Rightarrow> datetime option" where
  "strptime_canonical [y1, y2, y3, y4, s1, m1, m2, s2, d1, d2, s3, h1, h2, s4, n1, n2] =
     (if s1 = CHR ''-'' \<and> s2 = CHR ''-'' \<and> s3 = CHR '' '' \<and> s4 = CHR '':'' \<and>
         list_all isdigit [y1, y2, y3, y4, m1, m2, d1, d2, h1, h2, n1, n2]
      then checked_datetime (100 * two_digits y1 y2 + two_digits y3 y4) (two_digits m1 m2)
             (two_digits d1 d2) (two_digits h1 h2) (two_digits n1 n2)
      else None)"
| "strptime_canonical _ = None"

text \<open>\<open>categories.get(k, 0)\<close>.\<close>

definition get0 :: "(string \<times> nat) list \<Rightarrow> string \<Rightarrow> nat" where
  "get0 categories k = (case map_of categories k of None \<Rightarrow> 0 | Some n \<Rightarrow> n)"

section \<open>Properties of splitting, joining and stripping\<close>


lemma split_on_not_Nil: "split_on sep s \<noteq> []"
  by (induction s) (auto split: list.splits)

lemma join_split_on: "join sep (split_on sep s) = s"
proof (induction s)
  case Nil
  then show ?case by simp
next
  case (Cons c cs)
  obtain p ps where ps: "split_on sep cs = p # ps"
    using split_on_not_Nil [of sep cs] by (cases "split_on sep cs") auto
  with Cons show ?case by (cases ps) auto
qed

lemma split_on_append: "sep \<notin> set a \<Longrightarrow> split_on sep (a @ sep # b) = a # split_on sep b"
  by (induction a) auto

lemma rstrip_append_Cons:
  "\<not> isspace c \<Longrightarrow> rstrip (a @ c # b) = a @ c # rstrip b"
  by (simp add: rstrip_def dropWhile_append3)

lemma lstrip_Cons: "\<not> isspace c \<Longrightarrow> lstrip (c # s) = c # s"
  by (simp add: lstrip_def)

lemma length_rstrip: "length (rstrip s) \<le> length s"
proof -
  have "length (dropWhile isspace (rev s)) \<le> length (rev s)"
    by (rule length_dropWhile_le)
  then show ?thesis by (simp add: rstrip_def)
qed

lemma length_lstrip_less: "lstrip s \<noteq> s \<Longrightarrow> length (lstrip s) < length s"
proof (cases s)
  case Nil
  then show "lstrip s \<noteq> s \<Longrightarrow> ?thesis" by (simp add: lstrip_def)
next
  case (Cons c cs)
  assume "lstrip s \<noteq> s"
  with Cons have "lstrip s = dropWhile isspace cs"
    by (simp add: lstrip_def split: if_splits)
  moreover have "length (dropWhile isspace cs) \<le> length cs"
    by (rule length_dropWhile_le)
  ultimately show ?thesis using Cons by simp
qed

lemma strip_fixed_lstrip:
  assumes "strip s = s"
  shows "lstrip s = s"
proof (rule ccontr)
  assume "lstrip s \<noteq> s"
  then have "length (lstrip s) < length s"
    by (rule length_lstrip_less)
  with assms length_rstrip [of "lstrip s"] show False
    by (simp add: strip_def)
qed

lemma strip_fixed_rstrip: "strip s = s \<Longrightarrow> rstrip s = s"
  using strip_fixed_lstrip [of s] by (simp add: strip_def)

lemma not_isspace_bar [simp]: "\<not> isspace CHR ''|''" "\<not> isspace CHR ''+''" "\<not> isspace CHR ''-''"
  by (simp_all add: isspace_def)

lemma to_string_head: "to_string t = record_head t @ CHR ''|'' # (title t @ due_str t)"
  by (simp add: to_string_def record_head_def)

lemma strip_to_string:
  "strip (to_string t) = record_head t @ CHR ''|'' # rstrip (title t @ due_str t)"
proof -
  have "lstrip (to_string t) = to_string t"
    by (simp add: to_string_def completed_mark_def lstrip_Cons)
  then show ?thesis
    by (simp add: strip_def to_string_head rstrip_append_Cons)
qed

lemma split_on_record:
  assumes "no_bar (created_at t)" "no_bar (priority t)" "no_bar (category t)"
  shows "split_on CHR ''|'' (record_head t @ CHR ''|'' # rest) =
           completed_mark t # created_at t # priority t # category t # split_on CHR ''|'' rest"
proof -
  have m: "CHR ''|'' \<notin> set (completed_mark t)"
    by (simp add: completed_mark_def)
  have "record_head t @ CHR ''|'' # rest =
          completed_mark t @ CHR ''|'' # (created_at t @ CHR ''|'' # (priority t @ CHR ''|'' #
            (category t @ CHR ''|'' # rest)))"
    by (simp add: record_head_def)
  then show ?thesis
    using assms m by (simp add: split_on_append no_bar_def)
qed

lemma from_string_to_string:
  assumes "no_bar (created_at t)" "no_bar (priority t)" "no_bar (category t)"
  shows "from_string (to_string t) =
           Inr \<lparr>title = fst (extract_due (rstrip (title t @ due_str t))),
                due_date = snd (extract_due (rstrip (title t @ due_str t))),
                priority = priority t, category = category t,
                completed = completed t, created_at = created_at t\<rparr>"
proof -
  have "completed_mark t = ''+'' \<longleftrightarrow> completed t"
    by (simp add: completed_mark_def)
  then show ?thesis
    using assms
    by (simp add: from_string_def strip_to_string split_on_record join_split_on
        split: prod.splits)
qed


lemma not_isspace_due [simp]:
  "\<not> isspace CHR ''d''" "\<not> isspace CHR ''u''" "\<not> isspace CHR ''e''" "\<not> isspace CHR '':''"
  "isspace CHR '' ''"
  by (simp_all add: isspace_def)

lemma due_token_append:
  assumes "4 \<le> length t" "isspace c"
  shows "due_token (t @ c # rest) = due_token t"
  using assms by (simp add: due_token_def takeWhile_tail)

lemma take4_short:
  assumes "length t < 4"
  shows "take 4 (t @ CHR '' '' # rest) \<noteq> ''due:''"
proof
  assume eq: "take 4 (t @ CHR '' '' # rest) = ''due:''"
  have "take 4 (t @ CHR '' '' # rest) ! length t = (t @ CHR '' '' # rest) ! length t"
    using assms by (rule nth_take)
  then have "take 4 (t @ CHR '' '' # rest) ! length t = CHR '' ''"
    by (simp only: nth_append_length)
  with eq have "''due:'' ! length t = CHR '' ''" by simp
  moreover have "length t = 0 \<or> length t = 1 \<or> length t = 2 \<or> length t = 3"
    using assms by arith
  ultimately show False by auto
qed

lemma due_at_append:
  assumes "due_at (t @ CHR '' '' # rest)"
  shows "due_at t"
proof (cases "length t < 4")
  case True
  with assms take4_short [of t rest] show ?thesis by (simp add: due_at_def)
next
  case False
  then have "4 \<le> length t" by simp
  with assms show ?thesis
    by (simp add: due_at_def due_token_append)
qed

lemma re_search_due_append:
  assumes "re_search_due t = None" "\<not> isspace c"
  shows "re_search_due (t @ '' due:'' @ c # rest) =
           Some (Suc (length t), takeWhile (\<lambda>x. \<not> isspace x) (c # rest))"
  using assms
proof (induction t)
  case Nil
  then show ?case by (simp add: due_at_def due_token_def)
next
  case (Cons a t)
  from Cons.prems have no: "\<not> due_at (a # t)" and rest: "re_search_due t = None"
    by (auto split: if_splits)
  have "\<not> due_at ((a # t) @ CHR '' '' # (''due:'' @ c # rest))"
    using no due_at_append by blast
  then show ?case using Cons.IH [OF rest Cons.prems(2)] by simp
qed

lemma rstrip_snoc_space: "isspace c \<Longrightarrow> rstrip (u @ [c]) = rstrip u"
  by (simp add: rstrip_def)

lemma strip_snoc_space:
  assumes "isspace c"
  shows "strip (t @ [c]) = strip t"
proof (cases "\<forall>x\<in>set t. isspace x")
  case True
  then have "lstrip (t @ [c]) = []" "lstrip t = []"
    using assms by (simp_all add: lstrip_def)
  then show ?thesis by (simp add: strip_def)
next
  case False
  then obtain x where "x \<in> set t" "\<not> isspace x" by blast
  then have "lstrip (t @ [c]) = lstrip t @ [c]"
    by (simp add: lstrip_def)
  then show ?thesis using assms by (simp add: strip_def rstrip_snoc_space)
qed

lemma extract_due_plain:
  assumes "strip ttl = ttl" "re_search_due ttl = None"
  shows "extract_due ttl = (ttl, None)"
  using assms by (simp add: extract_due_def)

lemma extract_due_encoded:
  assumes "strip ttl = ttl" "re_search_due ttl = None" "\<not> isspace c"
  shows "extract_due (ttl @ '' due:'' @ c # rest) =
           (ttl, Some (takeWhile (\<lambda>x. \<not> isspace x) (c # rest)))"
proof -
  have "take (Suc (length ttl)) (ttl @ '' due:'' @ c # rest) = ttl @ [CHR '' '']"
    by simp
  then show ?thesis
    using assms re_search_due_append [OF assms(2,3), of rest]
    by (simp add: extract_due_def strip_snoc_space)
qed



lemma rstrip_nonspace:
  assumes "list_all (\<lambda>c. \<not> isspace c) s"
  shows "rstrip s = s"
proof (cases s rule: rev_cases)
  case Nil
  then show ?thesis by (simp add: rstrip_def)
next
  case (snoc xs x)
  with assms show ?thesis by (simp add: rstrip_def)
qed

lemma takeWhile_nonspace:
  assumes "list_all (\<lambda>c. \<not> isspace c) s"
  shows "takeWhile (\<lambda>c. \<not> isspace c) s = s"
  using assms by (simp add: list_all_iff)

lemma decoded_tail_plain:
  assumes "plain_title s"
  shows "extract_due (rstrip s) = (s, None)"
  using assms by (simp add: plain_title_def strip_fixed_rstrip extract_due_plain)

lemma decoded_tail_due:
  assumes "plain_title (title t)" "due_date t = Some (c # d)" "\<not> isspace c"
  shows "extract_due (rstrip (title t @ due_str t)) =
           (title t, Some (takeWhile (\<lambda>x. \<not> isspace x) (c # rstrip d)))"
proof -
  have "title t @ due_str t = (title t @ '' due:'') @ c # d"
    using assms(2) by (simp add: due_str_def)
  moreover have "rstrip ((title t @ '' due:'') @ c # d) = (title t @ '' due:'') @ c # rstrip d"
    using assms(3) by (rule rstrip_append_Cons)
  ultimately have "rstrip (title t @ due_str t) = title t @ '' due:'' @ c # rstrip d"
    by simp
  then show ?thesis
    using assms(1,3) extract_due_encoded [of "title t" c "rstrip d"]
    by (simp add: plain_title_def)
qed

section \<open>What the decoder returns\<close>

lemma split_on_parts: "p \<in> set (split_on sep s) \<Longrightarrow> sep \<notin> set p"
proof (induction s arbitrary: p)
  case Nil
  then show ?case by simp
next
  case (Cons c cs)
  show ?case
  proof (cases "c = sep")
    case True
    with Cons show ?thesis by auto
  next
    case False
    obtain q qs where q: "split_on sep cs = q # qs"
      using split_on_not_Nil [of sep cs] by (cases "split_on sep cs") auto
    with Cons.prems False have "p = c # q \<or> p \<in> set qs" by simp
    then show ?thesis
      using Cons.IH [of q] Cons.IH [of p] q False by auto
  qed
qed

lemma unpack4_Some: "unpack4 ps = Some (a, b, c, d, rest) \<Longrightarrow> ps = a # b # c # d # rest"
  by (induction ps rule: unpack4.induct) simp_all

lemma due_at_prefix: "due_at s \<Longrightarrow> due_at (s @ b)"
proof -
  assume a: "due_at s"
  then have "length (take 4 s) = length ''due:''"
    by (simp only: due_at_def)
  then have len: "4 \<le> length s"
    by simp
  from a obtain x xs where d: "drop 4 s = x # xs" "\<not> isspace x"
    by (cases "drop 4 s") (auto simp: due_at_def due_token_def split: if_splits)
  then show ?thesis using a len by (simp add: due_at_def due_token_def)
qed


lemma re_search_due_prefix:
  "re_search_due (a @ b) = None \<Longrightarrow> re_search_due a = None"
proof (induction a)
  case Nil
  then show ?case by simp
next
  case (Cons c a)
  from Cons.prems have "\<not> due_at ((c # a) @ b)" and "re_search_due (a @ b) = None"
    by (auto split: if_splits)
  then show ?case
    using due_at_prefix [of "c # a" b] Cons.IH by auto
qed

lemma re_search_due_dropWhile:
  "re_search_due s = None \<Longrightarrow> re_search_due (dropWhile P s) = None"
  by (induction s) (auto split: if_splits)

lemma rstrip_is_prefix: "\<exists>w. z = rstrip z @ w"
proof -
  have "rev (takeWhile isspace (rev z) @ dropWhile isspace (rev z)) = z"
    by (simp only: takeWhile_dropWhile_id rev_rev_ident)
  then have "rstrip z @ rev (takeWhile isspace (rev z)) = z"
    by (simp only: rev_append rstrip_def)
  then show ?thesis by metis
qed

lemma strip_Nil: "strip [] = []"
  by (simp add: strip_def lstrip_def rstrip_def)

lemma re_search_due_strip:
  assumes "re_search_due y = None"
  shows "re_search_due (strip y) = None"
proof -
  have l: "re_search_due (lstrip y) = None"
    using assms by (simp add: lstrip_def re_search_due_dropWhile)
  obtain w where "lstrip y = rstrip (lstrip y) @ w"
    using rstrip_is_prefix by blast
  with l have "re_search_due (rstrip (lstrip y) @ w) = None" by simp
  then show ?thesis
    unfolding strip_def by (rule re_search_due_prefix)
qed

lemma re_search_due_before:
  "re_search_due x = Some (i, g) \<Longrightarrow> re_search_due (take i x) = None"
proof (induction x arbitrary: i)
  case Nil
  then show ?case by simp
next
  case (Cons c cs)
  show ?case
  proof (cases "due_at (c # cs)")
    case True
    with Cons.prems show ?thesis by simp
  next
    case False
    with Cons.prems obtain j where j: "re_search_due cs = Some (j, g)" "i = Suc j"
      by auto
    have "\<not> due_at (c # take j cs)"
    proof
      assume "due_at (c # take j cs)"
      then have "due_at ((c # take j cs) @ drop j cs)" by (rule due_at_prefix)
      with False show False by simp
    qed
    then show ?thesis using Cons.IH [OF j(1)] j(2) by simp
  qed
qed

lemma re_search_due_group:
  "re_search_due x = Some (i, g) \<Longrightarrow> plain_due g"
proof (induction x arbitrary: i)
  case Nil
  then show ?case by simp
next
  case (Cons c cs)
  show ?case
  proof (cases "due_at (c # cs)")
    case True
    with Cons.prems have "g = due_token (c # cs)" "g \<noteq> []"
      by (auto simp: due_at_def)
    then show ?thesis
      by (auto simp: plain_due_def due_token_def list_all_iff dest: set_takeWhileD)
  next
    case False
    with Cons.prems obtain j where "re_search_due cs = Some (j, g)" by auto
    then show ?thesis by (rule Cons.IH)
  qed
qed

lemma strip_strip: "strip (strip y) = strip y"
proof (cases "strip y = []")
  case True
  show ?thesis by (simp add: True strip_Nil)
next
  case False
  let ?u = "lstrip y"
  obtain w where w: "?u = strip y @ w"
    using rstrip_is_prefix [of ?u] by (auto simp: strip_def)
  from False w have "?u \<noteq> []" by auto
  then have "\<not> isspace (hd ?u)"
    unfolding lstrip_def by (rule hd_dropWhile)
  moreover have "hd ?u = hd (strip y)"
    using w False by (metis hd_append2)
  ultimately have "lstrip (strip y) = strip y"
    using False by (cases "strip y") (simp_all add: lstrip_def)
  then have "strip (strip y) = rstrip (strip y)"
    by (simp add: strip_def)
  also have "\<dots> = strip y"
    by (simp add: strip_def rstrip_def)
  finally show ?thesis .
qed

lemma extract_due_plain_title: "plain_title (fst (extract_due x))"
proof (cases "re_search_due x")
  case None
  then show ?thesis
    by (simp add: extract_due_def plain_title_def strip_strip re_search_due_strip)
next
  case (Some ig)
  then obtain i g where "re_search_due x = Some (i, g)" by (cases ig) auto
  then show ?thesis
    using re_search_due_before [of x i g]
    by (simp add: extract_due_def plain_title_def strip_strip re_search_due_strip)
qed

lemma extract_due_plain_due: "snd (extract_due x) = Some g \<Longrightarrow> plain_due g"
  by (auto simp: extract_due_def split: option.splits dest: re_search_due_group)

text \<open>Whatever decoding returns is a record that is safe for the format.\<close>

lemma from_string_safe:
  assumes "from_string line = Inr t"
  shows "round_trip_safe t"
proof -
  let ?parts = "split_on CHR ''|'' (strip line)"
  from assms obtain m cr pr ca rest where u: "unpack4 ?parts = Some (m, cr, pr, ca, rest)"
    by (auto simp: from_string_def Let_def split: option.splits)
  then have parts: "?parts = m # cr # pr # ca # rest" by (rule unpack4_Some)
  have "cr \<in> set ?parts" "pr \<in> set ?parts" "ca \<in> set ?parts"
    by (simp_all add: parts)
  then have bars: "no_bar cr" "no_bar pr" "no_bar ca"
    unfolding no_bar_def by (auto dest: split_on_parts)
  let ?x = "join CHR ''|'' rest"
  from assms u have t: "t = \<lparr>title = fst (extract_due ?x), due_date = snd (extract_due ?x),
      priority = pr, category = ca, completed = (m = ''+''), created_at = cr\<rparr>"
    by (simp add: from_string_def Let_def split: prod.splits)
  show ?thesis
    using bars extract_due_plain_title [of ?x] extract_due_plain_due [of ?x]
    by (auto simp: t round_trip_safe_def plain_fields_def split: option.splits)
qed

section \<open>Round trip through the codec\<close>

lemma round_trip_if_safe:
  assumes "round_trip_safe t"
  shows "from_string (to_string t) = Inr t"
proof -
  from assms have bars: "no_bar (created_at t)" "no_bar (priority t)" "no_bar (category t)"
    and ttl: "plain_title (title t)"
    by (simp_all add: round_trip_safe_def plain_fields_def)
  have "extract_due (rstrip (title t @ due_str t)) = (title t, due_date t)"
  proof (cases "due_date t")
    case None
    then have "due_str t = []" by (simp add: due_str_def)
    with ttl None show ?thesis by (simp add: decoded_tail_plain)
  next
    case (Some d)
    with assms have d: "d \<noteq> []" "list_all (\<lambda>c. \<not> isspace c) d"
      by (simp_all add: round_trip_safe_def plain_due_def)
    then obtain c d' where cd: "d = c # d'" by (cases d) auto
    with d have c: "\<not> isspace c" and d': "list_all (\<lambda>c. \<not> isspace c) d'" by simp_all
    have "takeWhile (\<lambda>x. \<not> isspace x) (c # rstrip d') = c # d'"
      using c d' by (simp add: rstrip_nonspace takeWhile_nonspace)
    then show ?thesis
      using decoded_tail_due [OF ttl _ c, of d'] Some cd by simp
  qed
  then show ?thesis
    by (simp add: from_string_to_string [OF bars])
qed

text \<open>A store that was loaded is written and loaded again without change.\<close>

lemma decode_stable: "from_string line = Inr t \<Longrightarrow> from_string (to_string t) = Inr t"
  by (rule round_trip_if_safe) (rule from_string_safe)

text \<open>
  C1 (as amended).  Decoding the encoded line gives the record back, in every field
  and in the presence of the due date, exactly for the records that are safe for the
  format: \<open>created_at\<close>, \<open>priority\<close> and \<open>category\<close> hold no \<open>|\<close>; the title has no
  white space at either end and no text \<open>due:\<close> followed by a non-space character;
  the due date is absent, or it is not empty and holds no white space.
\<close>

theorem round_trip: "from_string (to_string t) = Inr t \<longleftrightarrow> round_trip_safe t"
  using round_trip_if_safe from_string_safe by blast

theorem round_trip_witness:
  "round_trip_safe
     \<lparr>title = ''Buy milk'', due_date = Some ''2025-01-10'', priority = ''high'',
      category = ''errand'', completed = False, created_at = ''2025-01-01 10:00''\<rparr> \<and>
   from_string (to_string
     \<lparr>title = ''Buy milk'', due_date = Some ''2025-01-10'', priority = ''high'',
      category = ''errand'', completed = False, created_at = ''2025-01-01 10:00''\<rparr>) =
   Inr \<lparr>title = ''Buy milk'', due_date = Some ''2025-01-10'', priority = ''high'',
        category = ''errand'', completed = False, created_at = ''2025-01-01 10:00''\<rparr>"
  using round_trip [of "\<lparr>title = ''Buy milk'', due_date = Some ''2025-01-10'', priority = ''high'',
      category = ''errand'', completed = False, created_at = ''2025-01-01 10:00''\<rparr>"]
  by (simp add: round_trip_safe_def plain_fields_def plain_title_def plain_due_def no_bar_def
      strip_def lstrip_def rstrip_def isspace_def due_at_def due_token_def)

text \<open>
  The claim as stated, for any title text, fails: a title that itself holds a
  \<open>due:\<close> token comes back cut, and with a due date the record never had.
\<close>

theorem round_trip_counterexample:
  "from_string (to_string
     \<lparr>title = ''pay due:fri'', due_date = None, priority = ''medium'',
      category = ''personal'', completed = False, created_at = ''2025-01-01 10:00''\<rparr>) =
   Inr \<lparr>title = ''pay'', due_date = Some ''fri'', priority = ''medium'',
        category = ''personal'', completed = False, created_at = ''2025-01-01 10:00''\<rparr> \<and>
   from_string (to_string
     \<lparr>title = ''pay due:fri'', due_date = None, priority = ''medium'',
      category = ''personal'', completed = False, created_at = ''2025-01-01 10:00''\<rparr>) \<noteq>
   Inr \<lparr>title = ''pay due:fri'', due_date = None, priority = ''medium'',
        category = ''personal'', completed = False, created_at = ''2025-01-01 10:00''\<rparr>"
  by (simp add: to_string_def from_string_def completed_mark_def due_str_def strip_def
      lstrip_def rstrip_def isspace_def extract_due_def due_at_def due_token_def)

text \<open>
  C8 (as amended).  The title survives encoding and decoding unchanged, also when it
  holds the delimiter \<open>|\<close>, provided the three fields before it hold no \<open>|\<close>, the title
  has no white space at either end and no \<open>due:\<close> token of its own, and the due date,
  when there is one, does not begin with white space.
\<close>

theorem title_round_trip:
  assumes "title_safe t"
  shows "\<exists>t'. from_string (to_string t) = Inr t' \<and> title t' = title t"
proof -
  from assms have bars: "no_bar (created_at t)" "no_bar (priority t)" "no_bar (category t)"
    and ttl: "plain_title (title t)"
    by (simp_all add: title_safe_def plain_fields_def)
  have "fst (extract_due (rstrip (title t @ due_str t))) = title t"
  proof (cases "due_str t = []")
    case True
    with ttl show ?thesis by (simp add: decoded_tail_plain)
  next
    case False
    then obtain d where d: "due_date t = Some d" "d \<noteq> []"
      by (auto simp: due_str_def split: option.splits if_splits)
    then obtain c d' where cd: "d = c # d'" by (cases d) auto
    with assms d have c: "\<not> isspace c" by (simp add: title_safe_def)
    show ?thesis
      using decoded_tail_due [OF ttl _ c, of d'] d cd by simp
  qed
  then show ?thesis
    by (simp add: from_string_to_string [OF bars])
qed

theorem title_round_trip_witness:
  "title_safe
     \<lparr>title = ''a|b'', due_date = Some ''fri'', priority = ''medium'',
      category = ''personal'', completed = False, created_at = ''2025-01-01 10:00''\<rparr> \<and>
   (\<exists>t'. from_string (to_string
     \<lparr>title = ''a|b'', due_date = Some ''fri'', priority = ''medium'',
      category = ''personal'', completed = False, created_at = ''2025-01-01 10:00''\<rparr>) = Inr t' \<and>
     title t' = ''a|b'')"
  using title_round_trip [of "\<lparr>title = ''a|b'', due_date = Some ''fri'', priority = ''medium'',
      category = ''personal'', completed = False, created_at = ''2025-01-01 10:00''\<rparr>"]
  by (simp add: title_safe_def plain_fields_def plain_title_def no_bar_def
      strip_def lstrip_def rstrip_def isspace_def due_at_def due_token_def)

text \<open>
  The claim as stated, for every record whose title holds the delimiter, fails: with a
  \<open>|\<close> in the category too, the fourth field ends at that bar and the rest of the
  category is decoded as the beginning of the title.
\<close>

theorem title_round_trip_counterexample:
  "from_string (to_string
     \<lparr>title = ''a|b'', due_date = None, priority = ''medium'',
      category = ''x|y'', completed = False, created_at = ''2025-01-01 10:00''\<rparr>) =
   Inr \<lparr>title = ''y|a|b'', due_date = None, priority = ''medium'',
        category = ''x'', completed = False, created_at = ''2025-01-01 10:00''\<rparr> \<and>
   ''y|a|b'' \<noteq> ''a|b''"
  by (simp add: to_string_def from_string_def completed_mark_def due_str_def strip_def
      lstrip_def rstrip_def isspace_def extract_due_def due_at_def due_token_def)

text \<open>
  Each of the other conditions is needed as well: a title ending in white space comes
  back without it, a title with a \<open>due:\<close> token of its own is cut there, and a due date
  that begins with white space is not recognised, so that it stays in the title.
\<close>

lemma title_changed_examples:
  "from_string (to_string
     \<lparr>title = ''a|b '', due_date = None, priority = ''medium'',
      category = ''personal'', completed = False, created_at = ''2025-01-01 10:00''\<rparr>) =
   Inr \<lparr>title = ''a|b'', due_date = None, priority = ''medium'',
        category = ''personal'', completed = False, created_at = ''2025-01-01 10:00''\<rparr>"
  "from_string (to_string
     \<lparr>title = ''a|due:x'', due_date = None, priority = ''medium'',
      category = ''personal'', completed = False, created_at = ''2025-01-01 10:00''\<rparr>) =
   Inr \<lparr>title = ''a|'', due_date = Some ''x'', priority = ''medium'',
        category = ''personal'', completed = False, created_at = ''2025-01-01 10:00''\<rparr>"
  "from_string (to_string
     \<lparr>title = ''a|b'', due_date = Some '' x'', priority = ''medium'',
      category = ''personal'', completed = False, created_at = ''2025-01-01 10:00''\<rparr>) =
   Inr \<lparr>title = ''a|b due: x'', due_date = None, priority = ''medium'',
        category = ''personal'', completed = False, created_at = ''2025-01-01 10:00''\<rparr>"
  by (simp_all add: to_string_def from_string_def completed_mark_def due_str_def strip_def
      lstrip_def rstrip_def isspace_def extract_due_def due_at_def due_token_def)

section \<open>The task store: listing, completing, loading\<close>

lemma list_from_active:
  "list_from k False ts =
     map (\<lambda>i. task_line (k + i) (ts ! i))
       (filter (\<lambda>i. \<not> completed (ts ! i)) [0..<length ts])"
proof (induction ts arbitrary: k)
  case Nil
  then show ?case by simp
next
  case (Cons t ts)
  have upt: "[0..<length (t # ts)] = 0 # map Suc [0..<length ts]"
    by (simp add: upt_conv_Cons map_Suc_upt del: upt_Suc)
  show ?case
    unfolding upt by (simp add: Cons.IH [of "Suc k"] filter_map comp_def)
qed

text \<open>
  C9.  Listing without the completed tasks prints, after the heading, exactly the tasks
  that are not completed, in order: for each of them one line with its position in the
  whole sequence, counted from 1, the open status, its priority symbol, its title, its
  category and its due date.  The positions of the completed tasks are skipped, not
  reused.  On the two tasks completed, active it prints the active one alone, as
  number 2.  (An empty sequence prints the notice that there are no active tasks, and
  no task.)
\<close>

theorem list_tasks_active:
  "list_tasks q False =
     (if tasks q = [] then [NoActiveTasks]
      else CurrentTasks #
           map (\<lambda>i. TaskLine (Suc i) False
                       (priority_symbols_get (priority (tasks q ! i)))
                       (title (tasks q ! i))
                       (''['' @ category (tasks q ! i) @ '']'')
                       (case due_date (tasks q ! i) of
                          None \<Rightarrow> []
                        | Some d \<Rightarrow> if d \<noteq> [] then '' ['' @ d @ '']'' else []))
             (filter (\<lambda>i. \<not> completed (tasks q ! i)) [0..<length (tasks q)])) \<and>
   list_tasks \<lparr>tasks = [a\<lparr>completed := True\<rparr>, b\<lparr>completed := False\<rparr>], tasks_file = f\<rparr> False =
     [CurrentTasks,
      TaskLine 2 False (priority_symbols_get (priority b)) (title b)
        (''['' @ category b @ '']'')
        (case due_date b of
           None \<Rightarrow> []
         | Some d \<Rightarrow> if d \<noteq> [] then '' ['' @ d @ '']'' else [])]"
proof -
  have "map (\<lambda>i. task_line (Suc i) (tasks q ! i))
          (filter (\<lambda>i. \<not> completed (tasks q ! i)) [0..<length (tasks q)]) =
        map (\<lambda>i. TaskLine (Suc i) False
                    (priority_symbols_get (priority (tasks q ! i)))
                    (title (tasks q ! i))
                    (''['' @ category (tasks q ! i) @ '']'')
                    (case due_date (tasks q ! i) of
                       None \<Rightarrow> []
                     | Some d \<Rightarrow> if d \<noteq> [] then '' ['' @ d @ '']'' else []))
          (filter (\<lambda>i. \<not> completed (tasks q ! i)) [0..<length (tasks q)])"
    by (rule map_cong) (simp_all add: task_line_def)
  then show ?thesis
    by (simp add: list_tasks_def list_from_active task_line_def numeral_2_eq_2)
qed

text \<open>The two tasks completed, active, and a third one without a due date.\<close>

theorem list_tasks_active_witness:
  "list_tasks
     \<lparr>tasks = [\<lparr>title = ''Pay rent'', due_date = None, priority = ''medium'', category = ''home'',
                 completed = True, created_at = ''2025-01-01 09:00''\<rparr>,
               \<lparr>title = ''Buy milk'', due_date = Some ''2025-01-10'', priority = ''high'',
                 category = ''errand'', completed = False, created_at = ''2025-01-01 10:00''\<rparr>,
               \<lparr>title = ''Call Ann'', due_date = None, priority = ''urgent'',
                 category = ''personal'', completed = False, created_at = ''2025-01-02 08:00''\<rparr>],
      tasks_file = []\<rparr> False =
     [CurrentTasks,
      TaskLine 2 False HighSymbol ''Buy milk'' ''[errand]'' '' [2025-01-10]'',
      TaskLine 3 False MediumSymbol ''Call Ann'' ''[personal]'' []]"
  using list_tasks_active [of
     "\<lparr>tasks = [\<lparr>title = ''Pay rent'', due_date = None, priority = ''medium'', category = ''home'',
                 completed = True, created_at = ''2025-01-01 09:00''\<rparr>,
               \<lparr>title = ''Buy milk'', due_date = Some ''2025-01-10'', priority = ''high'',
                 category = ''errand'', completed = False, created_at = ''2025-01-01 10:00''\<rparr>,
               \<lparr>title = ''Call Ann'', due_date = None, priority = ''urgent'',
                 category = ''personal'', completed = False, created_at = ''2025-01-02 08:00''\<rparr>],
      tasks_file = []\<rparr>"]
  by (simp add: priority_symbols_get_def upt_rec numeral_3_eq_3)

text \<open>
  C4 (as amended).  For a position \<open>p\<close> from 1 to the length of the sequence,
  \<open>complete_task\<close> sets the completed flag of the task at position \<open>p\<close> to true (a
  task not yet completed is flipped, a completed one stays completed), leaves its other
  fields and all other tasks as they were, and rewrites the whole file from the new
  sequence.
\<close>

theorem complete_task_in_range:
  assumes "1 \<le> p" "p \<le> int (length (tasks q))"
  shows "tasks (fst (complete_task q p)) =
           (tasks q)[nat (p - 1) := (tasks q ! nat (p - 1))\<lparr>completed := True\<rparr>] \<and>
         (\<forall>j < length (tasks q). j \<noteq> nat (p - 1) \<longrightarrow>
            tasks (fst (complete_task q p)) ! j = tasks q ! j) \<and>
         tasks_file (fst (complete_task q p)) =
           concat (map (\<lambda>t. to_string t @ [CHR 0x0A]) (tasks (fst (complete_task q p)))) \<and>
         snd (complete_task q p) = MarkedCompleted (title (tasks q ! nat (p - 1)))"
  using assms by (simp add: complete_task_def save_tasks_def Let_def)

theorem complete_task_in_range_witness:
  "(1::int) \<le> 2 \<and> (2::int) \<le> int (length (tasks
      \<lparr>tasks = [\<lparr>title = ''a'', due_date = None, priority = ''low'', category = ''c'',
                  completed = True, created_at = ''2025-01-01 10:00''\<rparr>,
                \<lparr>title = ''b'', due_date = None, priority = ''low'', category = ''c'',
                  completed = False, created_at = ''2025-01-02 10:00''\<rparr>],
       tasks_file = ''stale''\<rparr>)) \<and>
   fst (complete_task
      \<lparr>tasks = [\<lparr>title = ''a'', due_date = None, priority = ''low'', category = ''c'',
                  completed = True, created_at = ''2025-01-01 10:00''\<rparr>,
                \<lparr>title = ''b'', due_date = None, priority = ''low'', category = ''c'',
                  completed = False, created_at = ''2025-01-02 10:00''\<rparr>],
       tasks_file = ''stale''\<rparr> 2) =
      \<lparr>tasks = [\<lparr>title = ''a'', due_date = None, priority = ''low'', category = ''c'',
                  completed = True, created_at = ''2025-01-01 10:00''\<rparr>,
                \<lparr>title = ''b'', due_date = None, priority = ''low'', category = ''c'',
                  completed = True, created_at = ''2025-01-02 10:00''\<rparr>],
       tasks_file = ''+|2025-01-01 10:00|low|c|a'' @ [CHR 0x0A] @
                    ''+|2025-01-02 10:00|low|c|b'' @ [CHR 0x0A]\<rparr>"
  using complete_task_in_range [of 2
      "\<lparr>tasks = [\<lparr>title = ''a'', due_date = None, priority = ''low'', category = ''c'',
                  completed = True, created_at = ''2025-01-01 10:00''\<rparr>,
                \<lparr>title = ''b'', due_date = None, priority = ''low'', category = ''c'',
                  completed = False, created_at = ''2025-01-02 10:00''\<rparr>],
       tasks_file = ''stale''\<rparr>"]
  by (simp add: to_string_def completed_mark_def due_str_def complete_task_def save_tasks_def)

text \<open>
  The claim as stated says the flag is flipped.  On a task that is completed already
  the flag is true before and true after.
\<close>

theorem complete_task_flip_counterexample:
  "completed (tasks
      \<lparr>tasks = [\<lparr>title = ''a'', due_date = None, priority = ''low'', category = ''c'',
                  completed = True, created_at = ''2025-01-01 10:00''\<rparr>],
       tasks_file = []\<rparr> ! 0) \<and>
   completed (tasks (fst (complete_task
      \<lparr>tasks = [\<lparr>title = ''a'', due_date = None, priority = ''low'', category = ''c'',
                  completed = True, created_at = ''2025-01-01 10:00''\<rparr>],
       tasks_file = []\<rparr> 1)) ! 0)"
  by (simp add: complete_task_def save_tasks_def Let_def)

text \<open>
  C5.  For a position out of range, 0 and the length plus one among them,
  \<open>complete_task\<close> reports the invalid task number and returns the state as it was:
  the tasks in memory and the contents of the file, whatever they were.
\<close>

theorem complete_task_out_of_range:
  assumes "p < 1 \<or> int (length (tasks q)) < p"
  shows "complete_task q p = (q, InvalidTaskNumber)"
  using assms by (auto simp: complete_task_def)

theorem complete_task_out_of_range_witness:
  "(0::int) < 1 \<and>
   int (length (tasks
      \<lparr>tasks = [\<lparr>title = ''a'', due_date = None, priority = ''low'', category = ''c'',
                  completed = False, created_at = ''2025-01-01 10:00''\<rparr>],
       tasks_file = ''stale''\<rparr>)) < 2 \<and>
   complete_task
      \<lparr>tasks = [\<lparr>title = ''a'', due_date = None, priority = ''low'', category = ''c'',
                  completed = False, created_at = ''2025-01-01 10:00''\<rparr>],
       tasks_file = ''stale''\<rparr> 0 =
     (\<lparr>tasks = [\<lparr>title = ''a'', due_date = None, priority = ''low'', category = ''c'',
                  completed = False, created_at = ''2025-01-01 10:00''\<rparr>],
       tasks_file = ''stale''\<rparr>, InvalidTaskNumber) \<and>
   complete_task
      \<lparr>tasks = [\<lparr>title = ''a'', due_date = None, priority = ''low'', category = ''c'',
                  completed = False, created_at = ''2025-01-01 10:00''\<rparr>],
       tasks_file = ''stale''\<rparr> 2 =
     (\<lparr>tasks = [\<lparr>title = ''a'', due_date = None, priority = ''low'', category = ''c'',
                  completed = False, created_at = ''2025-01-01 10:00''\<rparr>],
       tasks_file = ''stale''\<rparr>, InvalidTaskNumber)"
  using complete_task_out_of_range [of 0
      "\<lparr>tasks = [\<lparr>title = ''a'', due_date = None, priority = ''low'', category = ''c'',
                  completed = False, created_at = ''2025-01-01 10:00''\<rparr>],
       tasks_file = ''stale''\<rparr>"]
    complete_task_out_of_range [of 2
      "\<lparr>tasks = [\<lparr>title = ''a'', due_date = None, priority = ''low'', category = ''c'',
                  completed = False, created_at = ''2025-01-01 10:00''\<rparr>],
       tasks_file = ''stale''\<rparr>"]
  by simp

lemma unpack4_None_iff: "unpack4 ps = None \<longleftrightarrow> length ps < 4"
  by (induction ps rule: unpack4.induct) simp_all

lemma from_string_short:
  assumes "field_count line < 4"
  shows "from_string line = Inl (ReadFailure line (NotEnoughValues (field_count line)))"
  using assms unpack4_None_iff [of "split_on CHR ''|'' (strip line)"]
  by (simp add: from_string_def field_count_def Let_def)

lemma from_string_long:
  assumes "4 \<le> field_count line"
  shows "\<exists>t. from_string line = Inr t"
proof -
  have "unpack4 (split_on CHR ''|'' (strip line)) \<noteq> None"
    using assms unpack4_None_iff [of "split_on CHR ''|'' (strip line)"]
    by (simp add: field_count_def)
  then show ?thesis
    by (auto simp: from_string_def Let_def split: prod.splits)
qed

lemma blank_field_count: "strip line = [] \<Longrightarrow> field_count line = 1"
  by (simp add: field_count_def)

lemma load_line_cases:
  "load_line acc line =
     (if 4 \<le> field_count line then (fst acc @ [projr (from_string line)], snd acc)
      else if strip line \<noteq> [] then
        (fst acc, snd acc @ [ReadFailure line (NotEnoughValues (field_count line))])
      else acc)"
proof (cases "4 \<le> field_count line")
  case True
  then obtain t where "from_string line = Inr t" using from_string_long by blast
  moreover have "strip line \<noteq> []" using True blank_field_count [of line] by auto
  ultimately show ?thesis using True by (simp add: load_line_def)
next
  case False
  then have "field_count line < 4" by simp
  then show ?thesis using from_string_short [of line] by (simp add: load_line_def)
qed

lemma foldl_load_line:
  "foldl load_line acc ls = (fst acc @ kept ls, snd acc @ printed ls)"
proof (induction ls arbitrary: acc)
  case Nil
  then show ?case by (simp add: kept_def printed_def)
next
  case (Cons l ls)
  have step: "foldl load_line acc (l # ls) =
                (fst (load_line acc l) @ kept ls, snd (load_line acc l) @ printed ls)"
    by (simp add: Cons.IH)
  have k: "fst (load_line acc l) @ kept ls = fst acc @ kept (l # ls)"
    by (simp add: load_line_cases [of acc l] kept_def)
  have p: "snd (load_line acc l) @ printed ls = snd acc @ printed (l # ls)"
    by (simp add: load_line_cases [of acc l] printed_def)
  show ?case
    by (simp only: step k p)
qed

text \<open>
  C6 (as amended).  A line with fewer than four fields does not decode: the diagnostic
  names the line and the cause.  A line with four fields or more decodes.  Loading keeps
  the decoded tasks of the lines with four fields or more, in the order of the file, and
  prints the diagnostic of every line with fewer than four fields that is not blank;
  a blank line is skipped before decoding, without a diagnostic.
\<close>

theorem load_tasks_lines:
  "(field_count line < 4 \<longrightarrow>
      from_string line = Inl (ReadFailure line (NotEnoughValues (field_count line)))) \<and>
   (4 \<le> field_count line \<longrightarrow> (\<exists>t. from_string line = Inr t)) \<and>
   fst (load_tasks ls) =
     map (\<lambda>l. projr (from_string l)) (filter (\<lambda>l. 4 \<le> field_count l) ls) \<and>
   snd (load_tasks ls) =
     map (\<lambda>l. ReadFailure l (NotEnoughValues (field_count l)))
       (filter (\<lambda>l. strip l \<noteq> [] \<and> field_count l < 4) ls)"
  using from_string_short [of line] from_string_long [of line]
  by (simp add: load_tasks_def foldl_load_line kept_def printed_def)

theorem load_tasks_lines_witness:
  "field_count (''broken|line'' @ [CHR 0x0A]) < 4 \<and>
   from_string (''broken|line'' @ [CHR 0x0A]) =
     Inl (ReadFailure (''broken|line'' @ [CHR 0x0A]) (NotEnoughValues 2)) \<and>
   4 \<le> field_count (''+|2025-01-02 11:30|low|home|Sweep due:sat'' @ [CHR 0x0A]) \<and>
   from_string (''+|2025-01-02 11:30|low|home|Sweep due:sat'' @ [CHR 0x0A]) =
     Inr \<lparr>title = ''Sweep'', due_date = Some ''sat'', priority = ''low'', category = ''home'',
          completed = True, created_at = ''2025-01-02 11:30''\<rparr> \<and>
   load_tasks [''-|2025-01-01 10:00|high|errand|Buy milk'' @ [CHR 0x0A],
               [CHR 0x0A],
               ''broken|line'' @ [CHR 0x0A],
               ''+|2025-01-02 11:30|low|home|Sweep due:sat'' @ [CHR 0x0A]] =
     ([\<lparr>title = ''Buy milk'', due_date = None, priority = ''high'', category = ''errand'',
         completed = False, created_at = ''2025-01-01 10:00''\<rparr>,
       \<lparr>title = ''Sweep'', due_date = Some ''sat'', priority = ''low'', category = ''home'',
         completed = True, created_at = ''2025-01-02 11:30''\<rparr>],
      [ReadFailure (''broken|line'' @ [CHR 0x0A]) (NotEnoughValues 2)])"
  using load_tasks_lines [of "''broken|line'' @ [CHR 0x0A]"
      "[''-|2025-01-01 10:00|high|errand|Buy milk'' @ [CHR 0x0A],
               [CHR 0x0A],
               ''broken|line'' @ [CHR 0x0A],
               ''+|2025-01-02 11:30|low|home|Sweep due:sat'' @ [CHR 0x0A]]"]
    load_tasks_lines [of "''+|2025-01-02 11:30|low|home|Sweep due:sat'' @ [CHR 0x0A]" "[]"]
  by (simp add: load_tasks_def load_line_def field_count_def from_string_def strip_def
      lstrip_def rstrip_def isspace_def extract_due_def due_at_def due_token_def Let_def)

text \<open>
  The claim as stated promises a diagnostic for every line with fewer than four
  fields.  An empty line has one field; loading drops it and prints nothing.
\<close>

theorem load_tasks_blank_counterexample:
  "field_count [CHR 0x0A] = 1 \<and> strip [CHR 0x0A] = [] \<and>
   load_tasks ([CHR 0x0A] # []) = ([], [])"
  by (simp add: load_tasks_def load_line_def field_count_def from_string_def strip_def lstrip_def rstrip_def isspace_def extract_due_def due_at_def due_token_def Let_def)

section \<open>The due token in the encoded line\<close>










section \<open>The delay of a reminder\<close>

text \<open>
  C3.  The claim is that a delay without a unit counts minutes: the bare string of a
  number \<open>n\<close> gives \<open>n\<close> minutes.  \<open>parse_delay\<close> takes the last character for the unit
  whatever it is, and the number from what stands before it.  So \<open>30\<close> is read as the
  number 3 with the unknown unit \<open>0\<close>: 180 seconds, not 1800.  And \<open>5\<close> leaves nothing
  for the number: \<open>int\<close> raises \<open>ValueError\<close>.
\<close>

theorem parse_delay_bare_number:
  "parse_delay ''30'' = Inr 180 \<and> parse_delay ''5'' = Inl ValueError"
  by (simp add: parse_delay_def py_int_def unsigned_value_def isdigit_def digit_value_def
      lower_def units_get_def int_strip_def int_isspace_def Let_def)

text \<open>With a unit the delay is the number times 60, 3600 or 86400 seconds; a unit in
  capitals counts the same, and an unknown unit counts minutes.\<close>

lemma parse_delay_suffixed:
  "parse_delay ''30m'' = Inr (30 * 60)"
  "parse_delay ''2h'' = Inr (2 * 3600)"
  "parse_delay ''1d'' = Inr (1 * 86400)"
  "parse_delay ''2H'' = Inr (2 * 3600)"
  "parse_delay ''45s'' = Inr (45 * 60)"
  by (simp_all add: parse_delay_def py_int_def unsigned_value_def isdigit_def digit_value_def
      lower_def units_get_def int_strip_def int_isspace_def Let_def)

section \<open>The report over a window of time\<close>

lemma map_of_bump:
  "map_of (bump categories k) = (map_of categories)(k \<mapsto> get0 categories k + 1)"
  by (simp add: bump_def get0_def AList.update_conv')

lemma distinct_bump:
  "distinct (map fst categories) \<Longrightarrow> distinct (map fst (bump categories k))"
  by (simp add: bump_def AList.distinct_update)

lemma map_of_foldl_bump:
  "map_of (foldl bump categories ks) k =
     (if k \<in> set ks then Some (get0 categories k + count_list ks k) else map_of categories k)"
proof (induction ks arbitrary: categories)
  case Nil
  then show ?case by simp
next
  case (Cons a ks)
  show ?case
    by (simp add: Cons.IH map_of_bump get0_def)
qed

lemma distinct_foldl_bump:
  "distinct (map fst categories) \<Longrightarrow> distinct (map fst (foldl bump categories ks))"
  by (induction ks arbitrary: categories) (simp_all add: distinct_bump)

lemma tally_all_parse:
  assumes "\<forall>t\<in>set ts. strptime (created_at t) \<noteq> None"
  shows "tally strptime start ts (c, r, cats) =
           Inr (c + length (filter (\<lambda>t. in_window strptime start t \<and> completed t) ts),
                r + length (filter (\<lambda>t. in_window strptime start t \<and> \<not> completed t) ts),
                foldl bump cats (map category (filter (in_window strptime start) ts)))"
  using assms
proof (induction ts arbitrary: c r cats)
  case Nil
  then show ?case by simp
next
  case (Cons t ts)
  then obtain d where d: "strptime (created_at t) = Some d" by auto
  from Cons.prems have rest: "\<forall>t\<in>set ts. strptime (created_at t) \<noteq> None" by simp
  show ?case
    using d by (simp add: Cons.IH [OF rest] in_window_def)
qed

lemma tally_unparsed:
  assumes "\<exists>t\<in>set ts. strptime (created_at t) = None"
  shows "tally strptime start ts acc = Inl ValueError"
  using assms
proof (induction ts arbitrary: acc)
  case Nil
  then show ?case by simp
next
  case (Cons t ts)
  obtain c r cats where acc: "acc = (c, r, cats)" by (cases acc) auto
  show ?case
  proof (cases "strptime (created_at t)")
    case None
    then show ?thesis by (simp add: acc)
  next
    case (Some d)
    with Cons.prems have "\<exists>t\<in>set ts. strptime (created_at t) = None" by auto
    then show ?thesis using Some by (simp add: acc Cons.IH)
  qed
qed

lemma count_category:
  "count_list (map category (filter P ts)) k = length (filter (\<lambda>t. P t \<and> category t = k) ts)"
  by (induction ts) auto

text \<open>
  C7 (as amended).  For the period \<open>day\<close> (one day) and the period \<open>week\<close> (seven
  days), on a store in which every \<open>created_at\<close> parses, the report counts as
  completed, or as remaining, and
  in the tally of its category, exactly the tasks in the window: those whose creation
  time is at or after \<open>now\<close> less the window.  A task created before that is in none
  of the three tallies; a category without a task in the window has no entry.
\<close>

theorem report_counts:
  assumes "(period = ''day'' \<and> days = 1) \<or> (period = ''week'' \<and> days = 7)"
    and "\<forall>t\<in>set (tasks q). strptime (created_at t) \<noteq> None"
  shows "\<exists>categories.
           report strptime now q period =
             Inr (Summary period
                   (length (filter (\<lambda>t. in_window strptime (now - timedelta_days days) t \<and> completed t) (tasks q)))
                   (length (filter (\<lambda>t. in_window strptime (now - timedelta_days days) t \<and> \<not> completed t) (tasks q)))
                   categories) \<and>
           distinct (map fst categories) \<and>
           (\<forall>k. map_of categories k =
              (if \<exists>t\<in>set (tasks q). in_window strptime (now - timedelta_days days) t \<and> category t = k
               then Some (length (filter (\<lambda>t. in_window strptime (now - timedelta_days days) t \<and> category t = k) (tasks q)))
               else None))"
proof -
  let ?start = "now - timedelta_days days"
  let ?cats = "foldl bump [] (map category (filter (in_window strptime ?start) (tasks q)))"
  from assms(1) have w: "window_start now period = Some ?start"
    by (auto simp: window_start_def)
  have "report strptime now q period =
          Inr (Summary period
                (length (filter (\<lambda>t. in_window strptime ?start t \<and> completed t) (tasks q)))
                (length (filter (\<lambda>t. in_window strptime ?start t \<and> \<not> completed t) (tasks q)))
                ?cats)"
    by (simp add: report_def w tally_all_parse [OF assms(2)])
  moreover have "distinct (map fst ?cats)"
    by (simp add: distinct_foldl_bump)
  moreover have "map_of ?cats k =
      (if \<exists>t\<in>set (tasks q). in_window strptime ?start t \<and> category t = k
       then Some (length (filter (\<lambda>t. in_window strptime ?start t \<and> category t = k) (tasks q)))
       else None)" for k
    by (auto simp: map_of_foldl_bump get0_def count_category)
  ultimately show ?thesis by blast
qed

text \<open>
  The report for \<open>day\<close> at 14:30 on 2026-11-03: the task created two days before is
  left out, the task created one hour before is counted.
\<close>

theorem report_counts_witness:
  "strptime_canonical ''2026-11-01 14:30'' = Some (datetime_of 2026 11 3 14 30 - timedelta_days 2) \<and>
   strptime_canonical ''2026-11-03 13:30'' = Some (datetime_of 2026 11 3 14 30 - timedelta_hours 1) \<and>
   report strptime_canonical (datetime_of 2026 11 3 14 30)
       \<lparr>tasks = [\<lparr>title = ''old'', due_date = None, priority = ''low'', category = ''work'',
                   completed = True, created_at = ''2026-11-01 14:30''\<rparr>,
                 \<lparr>title = ''new'', due_date = None, priority = ''low'', category = ''home'',
                   completed = False, created_at = ''2026-11-03 13:30''\<rparr>],
        tasks_file = []\<rparr> ''day'' =
     Inr (Summary ''day'' 0 1 [(''home'', 1)])"
  using report_counts [of "''day''" 1
       "\<lparr>tasks = [\<lparr>title = ''old'', due_date = None, priority = ''low'', category = ''work'',
                   completed = True, created_at = ''2026-11-01 14:30''\<rparr>,
                 \<lparr>title = ''new'', due_date = None, priority = ''low'', category = ''home'',
                   completed = False, created_at = ''2026-11-03 13:30''\<rparr>],
        tasks_file = []\<rparr>" strptime_canonical "datetime_of 2026 11 3 14 30"]
  by (simp add: checked_datetime_def two_digits_def digit_value_def isdigit_def datetime_of_def
      days_before_month_def days_before_year_def days_in_month_def is_leap_def report_def
      window_start_def timedelta_days_def bump_def in_window_def timedelta_hours_def)

text \<open>
  The claim as stated speaks of every task whose own \<open>created_at\<close> parses.  In a store
  that also holds a task whose \<open>created_at\<close> does not parse, a task created one hour
  before, well inside the window, is counted nowhere: the report raises and prints
  nothing.
\<close>

theorem report_counts_counterexample:
  "in_window strptime_canonical (datetime_of 2026 11 3 14 30 - timedelta_days 1)
     \<lparr>title = ''new'', due_date = None, priority = ''low'', category = ''home'',
      completed = False, created_at = ''2026-11-03 13:30''\<rparr> \<and>
   report strptime_canonical (datetime_of 2026 11 3 14 30)
       \<lparr>tasks = [\<lparr>title = ''new'', due_date = None, priority = ''low'', category = ''home'',
                   completed = False, created_at = ''2026-11-03 13:30''\<rparr>,
                 \<lparr>title = ''Buy milk'', due_date = None, priority = ''high'', category = ''errand'',
                   completed = False, created_at = ''yesterday''\<rparr>],
        tasks_file = []\<rparr> ''day'' = Inl ValueError"
  by (simp add: checked_datetime_def two_digits_def digit_value_def isdigit_def datetime_of_def
      days_before_month_def days_before_year_def days_in_month_def is_leap_def report_def
      window_start_def timedelta_days_def bump_def in_window_def)

text \<open>
  C10.  For the periods \<open>day\<close> and \<open>week\<close>: when some task has a \<open>created_at\<close>
  that does not parse, the scan raises \<open>ValueError\<close> and the report prints nothing,
  the task is not skipped; when every \<open>created_at\<close> parses, the report ends with its
  summary.
\<close>

theorem report_unparsed:
  assumes "period = ''day'' \<or> period = ''week''"
  shows "((\<exists>t\<in>set (tasks q). strptime (created_at t) = None) \<longrightarrow>
            report strptime now q period = Inl ValueError) \<and>
         ((\<forall>t\<in>set (tasks q). strptime (created_at t) \<noteq> None) \<longrightarrow>
            (\<exists>c r cats. report strptime now q period = Inr (Summary period c r cats)))"
proof (intro conjI impI)
  from assms obtain start where w: "window_start now period = Some start"
    by (auto simp: window_start_def)
  {
    assume "\<exists>t\<in>set (tasks q). strptime (created_at t) = None"
    then show "report strptime now q period = Inl ValueError"
      by (simp add: report_def w tally_unparsed)
  }
  {
    assume "\<forall>t\<in>set (tasks q). strptime (created_at t) \<noteq> None"
    then show "\<exists>c r cats. report strptime now q period = Inr (Summary period c r cats)"
      by (simp add: report_def w tally_all_parse)
  }
qed


text \<open>
  Decoding takes \<open>created_at\<close> from the line as it is, so such a task can be in the
  store.
\<close>

theorem report_unparsed_witness:
  "from_string ''-|yesterday|high|errand|Buy milk'' =
     Inr \<lparr>title = ''Buy milk'', due_date = None, priority = ''high'', category = ''errand'',
          completed = False, created_at = ''yesterday''\<rparr> \<and>
   strptime_canonical ''yesterday'' = None \<and>
   report strptime_canonical (datetime_of 2026 11 3 14 30)
       \<lparr>tasks = [\<lparr>title = ''new'', due_date = None, priority = ''low'', category = ''home'',
                   completed = False, created_at = ''2026-11-03 13:30''\<rparr>,
                 \<lparr>title = ''Buy milk'', due_date = None, priority = ''high'', category = ''errand'',
                   completed = False, created_at = ''yesterday''\<rparr>],
        tasks_file = []\<rparr> ''week'' = Inl ValueError \<and>
   report strptime_canonical (datetime_of 2026 11 3 14 30)
       \<lparr>tasks = [\<lparr>title = ''new'', due_date = None, priority = ''low'', category = ''home'',
                   completed = False, created_at = ''2026-11-03 13:30''\<rparr>],
        tasks_file = []\<rparr> ''week'' = Inr (Summary ''week'' 0 1 [(''home'', 1)])"
  using report_unparsed [of "''week''"
       "\<lparr>tasks = [\<lparr>title = ''new'', due_date = None, priority = ''low'', category = ''home'',
                   completed = False, created_at = ''2026-11-03 13:30''\<rparr>,
                 \<lparr>title = ''Buy milk'', due_date = None, priority = ''high'', category = ''errand'',
                   completed = False, created_at = ''yesterday''\<rparr>],
        tasks_file = []\<rparr>" strptime_canonical "datetime_of 2026 11 3 14 30"]
    report_unparsed [of "''week''"
       "\<lparr>tasks = [\<lparr>title = ''new'', due_date = None, priority = ''low'', category = ''home'',
                   completed = False, created_at = ''2026-11-03 13:30''\<rparr>],
        tasks_file = []\<rparr>" strptime_canonical "datetime_of 2026 11 3 14 30"]
  by (simp add: checked_datetime_def two_digits_def digit_value_def isdigit_def datetime_of_def
      days_before_month_def days_before_year_def days_in_month_def is_leap_def report_def
      window_start_def timedelta_days_def bump_def in_window_def from_string_def strip_def
      lstrip_def rstrip_def isspace_def extract_due_def due_at_def due_token_def)

end
